theory Spec2Isabelle
  imports Complex_Main
begin

section \<open>The Subtract operation node of src/ops/subtract.ts\<close>

text \<open>
  The class \<open>Subtract\<close> is the only code under verification. Everything it
  imports (\<open>util\<close>, \<open>graph_util\<close>, \<open>NDArrayMath\<close>, \<open>NDArray\<close>, \<open>Scalar\<close>,
  \<open>TensorArrayMap\<close>) lives in other files of the repository; those parts are
  modelled from the specification and marked as such. Array elements are
  modelled as real numbers: rounding and the special values of 32-bit
  floating point are outside the model, and no theorem below states the
  value of a division by zero.
\<close>

subsection \<open>Tensor handles and array values\<close>

text \<open>
  Modelled from the spec: the Tensor Handle (\<open>Tensor\<close> of \<open>../graph\<close>), an
  identity plus a shape. Equality of handles is identity; in the model two
  handles are the same handle iff the records are equal.
\<close>

record Tensor =
  tensor_id :: nat
  tensor_shape :: "nat list"

text \<open>
  Modelled from the spec: the Array Value (\<open>NDArray\<close> of \<open>../math/ndarray\<close>), a
  dense buffer of numeric elements plus the shape it was produced with.
\<close>

record NDArray =
  shape :: "nat list"
  data :: "real list"

text \<open>Modelled from the spec: \<open>util.sizeFromShape\<close>, the number of elements a
  shape denotes.\<close>

definition sizeFromShape :: "nat list \<Rightarrow> nat" where
  "sizeFromShape shp = prod_list shp"

text \<open>Modelled from the spec: \<open>util.isScalarShape\<close>, the broadcasting classifier
  of section 4.4: whether a shape denotes a scalar (exactly one element, any
  rank).\<close>

definition isScalarShape :: "nat list \<Rightarrow> bool" where
  "isScalarShape shp = (sizeFromShape shp = 1)"

text \<open>Modelled from the spec: \<open>util.arraysEqual\<close>, equality of two shapes.\<close>

definition arraysEqual :: "nat list \<Rightarrow> nat list \<Rightarrow> bool" where
  "arraysEqual n1 n2 = (n1 = n2)"

text \<open>Modelled from the spec: \<open>NDArray.size\<close>, the total element count of an
  array.\<close>

definition size_nd :: "NDArray \<Rightarrow> nat" where
  "size_nd a = length (data a)"

text \<open>An array value is well formed when its buffer has as many elements as
  its shape denotes.\<close>

definition wf_NDArray :: "NDArray \<Rightarrow> bool" where
  "wf_NDArray a = (length (data a) = sizeFromShape (shape a))"

text \<open>The single element of a scalar (0 is returned for an empty buffer,
  which a well-formed scalar never has).\<close>

definition scalar_get :: "NDArray \<Rightarrow> real" where
  "scalar_get c = (case data c of [] \<Rightarrow> 0 | x # _ \<Rightarrow> x)"

subsection \<open>The kernels of the Numeric Backend\<close>

text \<open>Modelled from the spec: the arithmetic kernels consumed from the Numeric
  Backend (\<open>NDArrayMath\<close>): elementwise subtract, the two scalar broadcasts,
  elementwise negate, sum-reduction-to-scalar and scalar division. They are
  pure functions of the array values here; the stateful operations
  \<open>math_sub\<close> etc. below allocate their result inside the active scope.\<close>

definition sub_nd :: "NDArray \<Rightarrow> NDArray \<Rightarrow> NDArray" where
  "sub_nd a b = \<lparr>shape = shape a, data = map2 (-) (data a) (data b)\<rparr>"

definition scalarMinusArray_nd :: "NDArray \<Rightarrow> NDArray \<Rightarrow> NDArray" where
  "scalarMinusArray_nd c a = \<lparr>shape = shape a, data = map (\<lambda>x. scalar_get c - x) (data a)\<rparr>"

definition arrayMinusScalar_nd :: "NDArray \<Rightarrow> NDArray \<Rightarrow> NDArray" where
  "arrayMinusScalar_nd a c = \<lparr>shape = shape a, data = map (\<lambda>x. x - scalar_get c) (data a)\<rparr>"

definition neg_nd :: "NDArray \<Rightarrow> NDArray" where
  "neg_nd a = \<lparr>shape = shape a, data = map uminus (data a)\<rparr>"

definition sum_nd :: "NDArray \<Rightarrow> NDArray" where
  "sum_nd a = \<lparr>shape = [], data = [sum_list (data a)]\<rparr>"

definition divide_nd :: "NDArray \<Rightarrow> NDArray \<Rightarrow> NDArray" where
  "divide_nd a b = \<lparr>shape = shape a, data = map2 (/) (data a) (data b)\<rparr>"

text \<open>Modelled from the spec: the value built by \<open>Scalar.new\<close>, a rank-0 array
  with one element.\<close>

definition scalar_nd :: "real \<Rightarrow> NDArray" where
  "scalar_nd v = \<lparr>shape = [], data = [v]\<rparr>"

subsection \<open>The store: arrays by identity, scopes and the two Value Maps\<close>

text \<open>
  Arrays are objects with identity: the gradient written for \<open>t1\<close> in the
  non-scalar case is the very array \<open>dy\<close>. The store maps an address to the
  array value held there; \<open>nextAddr\<close> is the first address never allocated.
  \<open>disposals a\<close> counts the calls of \<open>dispose\<close> on the array at \<open>a\<close>: the array
  is live while the count is 0.

  Modelled from the spec: the scoped allocation of section 5. \<open>activeScope\<close>
  lists the arrays the backend produced inside the running scope,
  \<open>activeScopeNDArraysToKeep\<close> those marked "keep" in it.

  \<open>inferenceArrays\<close> and \<open>gradientArrays\<close> are the two Value Maps
  (\<open>TensorArrayMap\<close>). \<open>writes\<close> is a history of the \<open>set\<close> calls made on either
  map, oldest first; nothing reads it.
\<close>

record state =
  heap :: "nat \<Rightarrow> NDArray"
  nextAddr :: nat
  disposals :: "nat \<Rightarrow> nat"
  activeScope :: "nat list"
  activeScopeNDArraysToKeep :: "nat list"
  inferenceArrays :: "Tensor \<rightharpoonup> nat"
  gradientArrays :: "Tensor \<rightharpoonup> nat"
  writes :: "(Tensor \<times> nat) list"

definition live :: "state \<Rightarrow> nat \<Rightarrow> bool" where
  "live s a = (disposals s a = 0)"

text \<open>A fresh array object: a new address, holding \<open>v\<close>, never disposed.\<close>

definition alloc :: "NDArray \<Rightarrow> state \<Rightarrow> nat \<times> state" where
  "alloc v s =
     (nextAddr s,
      s\<lparr>heap := (heap s)(nextAddr s := v),
        disposals := (disposals s)(nextAddr s := 0),
        nextAddr := Suc (nextAddr s)\<rparr>)"

text \<open>Modelled from the spec: \<open>NDArray.dispose\<close>, the release of one array.\<close>

definition NDArray_dispose :: "nat \<Rightarrow> state \<Rightarrow> state" where
  "NDArray_dispose a s = s\<lparr>disposals := (disposals s)(a := Suc (disposals s a))\<rparr>"

text \<open>Modelled from the spec: \<open>Scalar.new\<close> builds an array without going
  through the backend, so no scope tracks it.\<close>

definition Scalar_new :: "real \<Rightarrow> state \<Rightarrow> nat \<times> state" where
  "Scalar_new v s = alloc (scalar_nd v) s"

text \<open>Modelled from the spec: every array the backend produces is tracked by
  the enclosing scope; \<open>keep\<close> exempts an array from that scope's cleanup.\<close>

definition track :: "nat \<Rightarrow> state \<Rightarrow> nat \<times> state" where
  "track a s = (a, s\<lparr>activeScope := activeScope s @ [a]\<rparr>)"

definition keep :: "nat \<Rightarrow> state \<Rightarrow> nat \<times> state" where
  "keep a s = (a, s\<lparr>activeScopeNDArraysToKeep := activeScopeNDArraysToKeep s @ [a]\<rparr>)"

definition produce :: "NDArray \<Rightarrow> state \<Rightarrow> nat \<times> state" where
  "produce v s = (let (r, s') = alloc v s in track r s')"

definition math_sub :: "nat \<Rightarrow> nat \<Rightarrow> state \<Rightarrow> nat \<times> state" where
  "math_sub a b s = produce (sub_nd (heap s a) (heap s b)) s"

definition math_scalarMinusArray :: "nat \<Rightarrow> nat \<Rightarrow> state \<Rightarrow> nat \<times> state" where
  "math_scalarMinusArray c a s = produce (scalarMinusArray_nd (heap s c) (heap s a)) s"

definition math_arrayMinusScalar :: "nat \<Rightarrow> nat \<Rightarrow> state \<Rightarrow> nat \<times> state" where
  "math_arrayMinusScalar a c s = produce (arrayMinusScalar_nd (heap s a) (heap s c)) s"

definition math_neg :: "nat \<Rightarrow> state \<Rightarrow> nat \<times> state" where
  "math_neg a s = produce (neg_nd (heap s a)) s"

definition math_sum :: "nat \<Rightarrow> state \<Rightarrow> nat \<times> state" where
  "math_sum a s = produce (sum_nd (heap s a)) s"

definition math_divide :: "nat \<Rightarrow> nat \<Rightarrow> state \<Rightarrow> nat \<times> state" where
  "math_divide a b s = produce (divide_nd (heap s a) (heap s b)) s"

text \<open>Modelled from the spec: \<open>math.scope\<close>. The body runs in a new, empty
  scope; when it returns, every array tracked by that scope and not marked
  "keep" is disposed, and the enclosing scope is active again.\<close>

definition endScope :: "state \<Rightarrow> state" where
  "endScope s =
     fold (\<lambda>a st. if a \<in> set (activeScopeNDArraysToKeep s) then st else NDArray_dispose a st)
       (activeScope s) s"

definition math_scope :: "(state \<Rightarrow> 'a \<times> state) \<Rightarrow> state \<Rightarrow> 'a \<times> state" where
  "math_scope scopeFn s =
     (let (r, s1) = scopeFn (s\<lparr>activeScope := [], activeScopeNDArraysToKeep := []\<rparr>);
          s2 = endScope s1
      in (r, s2\<lparr>activeScope := activeScope s,
                activeScopeNDArraysToKeep := activeScopeNDArraysToKeep s\<rparr>))"

text \<open>Modelled from the spec: \<open>TensorArrayMap.set\<close> on each of the two maps (a
  later write overwrites), and \<open>TensorArrayMap.get\<close>, which fails when the
  entry is absent (a lookup returning \<open>None\<close>).\<close>

definition inferenceArrays_set :: "Tensor \<Rightarrow> nat \<Rightarrow> state \<Rightarrow> state" where
  "inferenceArrays_set t a s =
     s\<lparr>inferenceArrays := (inferenceArrays s)(t \<mapsto> a), writes := writes s @ [(t, a)]\<rparr>"

definition gradientArrays_set :: "Tensor \<Rightarrow> nat \<Rightarrow> state \<Rightarrow> state" where
  "gradientArrays_set t a s =
     s\<lparr>gradientArrays := (gradientArrays s)(t \<mapsto> a), writes := writes s @ [(t, a)]\<rparr>"

subsection \<open>The class Subtract\<close>

datatype error = ShapeMismatchError | MissingValueError | MissingGradientError

record Subtract =
  t1 :: Tensor
  t2 :: Tensor
  outTensor :: Tensor
  dySizeScalar :: "nat option"

text \<open>The constructor: \<open>util.assert\<close> throws when its condition is false.\<close>

definition Subtract_new :: "Tensor \<Rightarrow> Tensor \<Rightarrow> Tensor \<Rightarrow> error + Subtract" where
  "Subtract_new a b out =
     (if sizeFromShape (tensor_shape a) = 1 \<or>
         sizeFromShape (tensor_shape b) = 1 \<or>
         arraysEqual (tensor_shape a) (tensor_shape b)
      then Inr \<lparr>t1 = a, t2 = b, outTensor = out, dySizeScalar = None\<rparr>
      else Inl ShapeMismatchError)"

text \<open>\<open>feedForward\<close>: both inputs are read before the scope is entered; the
  dispatch looks at the shapes of the arrays read from the map.\<close>

definition feedForward :: "Subtract \<Rightarrow> state \<Rightarrow> error option \<times> state" where
  "feedForward this s =
     (case inferenceArrays s (t1 this) of
        None \<Rightarrow> (Some MissingValueError, s)
      | Some a \<Rightarrow>
     (case inferenceArrays s (t2 this) of
        None \<Rightarrow> (Some MissingValueError, s)
      | Some b \<Rightarrow>
          (None, snd (math_scope (\<lambda>s0.
             let (result, s1) =
                   (if isScalarShape (shape (heap s0 a)) then math_scalarMinusArray a b s0
                    else if isScalarShape (shape (heap s0 b)) then math_arrayMinusScalar a b s0
                    else math_sub a b s0);
                 (kept, s2) = keep result s1
             in ((), inferenceArrays_set (outTensor this) kept s2)) s))))"

text \<open>The lazily created divisor: \<open>if (this.dySizeScalar == null)
  this.dySizeScalar = Scalar.new(dy.size)\<close>, followed by the read of the
  field.\<close>

definition dySizeScalar_of :: "nat \<Rightarrow> Subtract \<Rightarrow> state \<Rightarrow> nat \<times> Subtract \<times> state" where
  "dySizeScalar_of dy this s =
     (case dySizeScalar this of
        None \<Rightarrow>
          (let (c, s') = Scalar_new (real (size_nd (heap s dy))) s
           in (c, this\<lparr>dySizeScalar := Some c\<rparr>, s'))
      | Some c \<Rightarrow> (c, this, s))"

text \<open>The two blocks of \<open>backProp\<close>, one per input. \<open>shouldBackProp\<close> is the
  capability query of the Graph Driver (\<open>graph_util.shouldBackProp\<close>), taken as
  a parameter.\<close>

definition backProp_t1 ::
  "(Tensor \<Rightarrow> bool) \<Rightarrow> nat \<Rightarrow> Subtract \<times> state \<Rightarrow> Subtract \<times> state" where
  "backProp_t1 shouldBackProp dy ts =
     (let (this, s) = ts in
      if shouldBackProp (t1 this) then
        (if isScalarShape (tensor_shape (t1 this)) then
           (let (sum, sa) = math_sum dy s;
                (c, this', sb) = dySizeScalar_of dy this sa;
                (q, sc) = math_divide sum c sb;
                (kept, sd) = keep q sc
            in (this', gradientArrays_set (t1 this) kept sd))
         else
           (let (kept, sa) = keep dy s
            in (this, gradientArrays_set (t1 this) kept sa)))
      else (this, s))"

definition backProp_t2 ::
  "(Tensor \<Rightarrow> bool) \<Rightarrow> nat \<Rightarrow> Subtract \<times> state \<Rightarrow> Subtract \<times> state" where
  "backProp_t2 shouldBackProp dy ts =
     (let (this, s) = ts in
      if shouldBackProp (t2 this) then
        (if isScalarShape (tensor_shape (t2 this)) then
           (let (sum, sa) = math_sum dy s;
                (negSum, sb) = math_neg sum sa;
                (c, this', sc) = dySizeScalar_of dy this sb;
                (q, sd) = math_divide negSum c sc;
                (kept, se) = keep q sd
            in (this', gradientArrays_set (t2 this) kept se))
         else
           (let (n, sa) = math_neg dy s;
                (kept, sb) = keep n sa
            in (this, gradientArrays_set (t2 this) kept sb)))
      else (this, s))"

definition backProp ::
  "(Tensor \<Rightarrow> bool) \<Rightarrow> Subtract \<Rightarrow> state \<Rightarrow> error option \<times> Subtract \<times> state" where
  "backProp shouldBackProp this s =
     (case gradientArrays s (outTensor this) of
        None \<Rightarrow> (Some MissingGradientError, this, s)
      | Some dy \<Rightarrow>
          (let (this', s') =
                 math_scope (\<lambda>s0.
                   backProp_t2 shouldBackProp dy (backProp_t1 shouldBackProp dy (this, s0))) s
           in (None, this', s')))"

text \<open>\<open>dispose\<close>: the field is tested and the scalar disposed; the field is
  not assigned.\<close>

definition dispose :: "Subtract \<Rightarrow> state \<Rightarrow> state" where
  "dispose this s =
     (case dySizeScalar this of
        None \<Rightarrow> s
      | Some c \<Rightarrow> NDArray_dispose c s)"

subsection \<open>Example data\<close>

text \<open>A store holding the given arrays at the addresses 0, 1, ..., with both
  Value Maps empty and no scope open.\<close>

definition ex_store :: "NDArray list \<Rightarrow> state" where
  "ex_store xs =
     \<lparr>heap = (\<lambda>a. if a < length xs then xs ! a else \<lparr>shape = [0], data = []\<rparr>),
      nextAddr = length xs,
      disposals = (\<lambda>_. 0),
      activeScope = [],
      activeScopeNDArraysToKeep = [],
      inferenceArrays = Map.empty,
      gradientArrays = Map.empty,
      writes = []\<rparr>"

definition ex_tensor :: "nat \<Rightarrow> nat list \<Rightarrow> Tensor" where
  "ex_tensor i shp = \<lparr>tensor_id = i, tensor_shape = shp\<rparr>"

definition ex_node :: "nat list \<Rightarrow> nat list \<Rightarrow> nat list \<Rightarrow> Subtract" where
  "ex_node sa sb so =
     \<lparr>t1 = ex_tensor 0 sa, t2 = ex_tensor 1 sb, outTensor = ex_tensor 2 so, dySizeScalar = None\<rparr>"

text \<open>Forward examples: the inputs of a node are at the addresses 0 and 1.\<close>

definition ex_forward :: "Subtract \<Rightarrow> NDArray \<Rightarrow> NDArray \<Rightarrow> state" where
  "ex_forward this A B =
     (ex_store [A, B])\<lparr>inferenceArrays := [t1 this \<mapsto> 0, t2 this \<mapsto> 1]\<rparr>"

text \<open>Backward examples: the upstream gradient of a node is at the address 0.\<close>

definition ex_backward :: "Subtract \<Rightarrow> NDArray \<Rightarrow> state" where
  "ex_backward this DY = (ex_store [DY])\<lparr>gradientArrays := [outTensor this \<mapsto> 0]\<rparr>"

text \<open>The Graph Driver stores a new upstream gradient for a handle.\<close>

definition ex_set_gradient :: "Tensor \<Rightarrow> NDArray \<Rightarrow> state \<Rightarrow> state" where
  "ex_set_gradient t v s =
     (let (a, s') = alloc v s in s'\<lparr>gradientArrays := (gradientArrays s')(t \<mapsto> a)\<rparr>)"

text \<open>A first backward pass of a node with a scalar left input, upstream
  gradient [2, 2, 2, 2]; then a second pass of the same node after the driver
  has stored an upstream gradient of two elements, [6, 6], for the output
  handle.\<close>

definition ex_run1 :: "error option \<times> Subtract \<times> state" where
  "ex_run1 =
     backProp (\<lambda>_. True) (ex_node [] [4] [4])
       (ex_backward (ex_node [] [4] [4]) \<lparr>shape = [4], data = [2, 2, 2, 2]\<rparr>)"

definition ex_state2 :: state where
  "ex_state2 =
     ex_set_gradient (ex_tensor 2 [4]) \<lparr>shape = [2], data = [6, 6]\<rparr> (snd (snd ex_run1))"

definition ex_run2 :: "error option \<times> Subtract \<times> state" where
  "ex_run2 = backProp (\<lambda>_. True) (fst (snd ex_run1)) ex_state2"

text \<open>A backward pass of a node whose left input needs no gradient and has
  an entry in the gradient map already.\<close>

definition ex_run3 :: "error option \<times> Subtract \<times> state" where
  "ex_run3 =
     backProp (\<lambda>t. t \<noteq> ex_tensor 0 [4]) (ex_node [4] [4] [4])
       ((ex_backward (ex_node [4] [4] [4]) \<lparr>shape = [4], data = [2, 2, 2, 2]\<rparr>)
          \<lparr>gradientArrays := [ex_tensor 2 [4] \<mapsto> 0, ex_tensor 0 [4] \<mapsto> 0]\<rparr>)"

text \<open>A first backward pass of a node with a scalar right input.\<close>

definition ex_run4 :: "error option \<times> Subtract \<times> state" where
  "ex_run4 =
     backProp (\<lambda>_. True) (ex_node [4] [] [4])
       (ex_backward (ex_node [4] [] [4]) \<lparr>shape = [4], data = [2, 2, 2, 2]\<rparr>)"

subsection \<open>Notions used in the statements\<close>

text \<open>The divisor a backward pass uses for a scalar input: the element count
  of \<open>dy\<close> when the node has no cached scalar yet, the cached scalar
  otherwise.\<close>

definition divisor :: "Subtract \<Rightarrow> state \<Rightarrow> nat \<Rightarrow> real" where
  "divisor this s dy =
     (case dySizeScalar this of
        None \<Rightarrow> real (size_nd (heap s dy))
      | Some c \<Rightarrow> scalar_get (heap s c))"

text \<open>The cached scalar of the node, if the node had none when the scope was
  entered (\<open>c0\<close> is the field at that moment).\<close>

definition created :: "nat option \<Rightarrow> Subtract \<Rightarrow> nat set" where
  "created c0 this = (case c0 of None \<Rightarrow> set_option (dySizeScalar this) | Some _ \<Rightarrow> {})"

text \<open>The bookkeeping invariant of the body of \<open>backProp\<close>'s scope, entered
  with next address \<open>n0\<close>, \<open>w0\<close> writes in the history and cache field \<open>c0\<close>:
  the kept arrays are the written ones, and an array allocated since the
  entry is live and is either tracked by the scope or the new cached scalar.\<close>

definition scope_inv :: "nat \<Rightarrow> nat \<Rightarrow> nat option \<Rightarrow> Subtract \<times> state \<Rightarrow> bool" where
  "scope_inv n0 w0 c0 ts =
     (let (this, s) = ts in
        n0 \<le> nextAddr s \<and>
        (\<forall>c. c0 = Some c \<longrightarrow> dySizeScalar this = Some c) \<and>
        set (activeScopeNDArraysToKeep s) = snd ` set (drop w0 (writes s)) \<and>
        w0 \<le> length (writes s) \<and>
        (\<forall>a \<in> created c0 this. n0 \<le> a \<and> a < nextAddr s) \<and>
        (\<forall>a \<in> set (activeScope s). a < nextAddr s) \<and>
        (\<forall>a. n0 \<le> a \<and> a < nextAddr s \<longrightarrow>
           disposals s a = 0 \<and> ((a \<in> set (activeScope s)) \<noteq> (a \<in> created c0 this))))"

section \<open>Properties\<close>

lemmas kernel_defs = sub_nd_def scalarMinusArray_nd_def arrayMinusScalar_nd_def neg_nd_def
  sum_nd_def divide_nd_def scalar_nd_def scalar_get_def size_nd_def

lemmas store_defs = alloc_def NDArray_dispose_def Scalar_new_def track_def keep_def produce_def
  math_sub_def math_scalarMinusArray_def math_arrayMinusScalar_def math_neg_def math_sum_def
  math_divide_def endScope_def math_scope_def inferenceArrays_set_def gradientArrays_set_def

lemmas bp_defs = backProp_t1_def backProp_t2_def dySizeScalar_of_def

lemmas ex_defs = ex_store_def ex_tensor_def ex_node_def ex_forward_def ex_backward_def
  ex_set_gradient_def ex_run1_def ex_state2_def ex_run2_def ex_run3_def ex_run4_def

lemmas run_defs = backProp_def bp_defs store_defs kernel_defs Let_def live_def
  isScalarShape_def sizeFromShape_def

subsection \<open>The scope\<close>

text \<open>Leaving a scope disposes each tracked array that was not kept, once per
  time it was tracked, and touches nothing else.\<close>

lemma fold_dispose:
  "fold (\<lambda>a st. if a \<in> K then st else NDArray_dispose a st) xs st =
     st\<lparr>disposals := (\<lambda>a. disposals st a + count_list (filter (\<lambda>x. x \<notin> K) xs) a)\<rparr>"
proof (induction xs arbitrary: st)
  case Nil
  show ?case by simp
next
  case (Cons x xs)
  show ?case
    by (simp add: Cons.IH NDArray_dispose_def fun_eq_iff)
qed

lemma endScope_eq:
  "endScope s =
     s\<lparr>disposals := (\<lambda>a. disposals s a +
          count_list (filter (\<lambda>x. x \<notin> set (activeScopeNDArraysToKeep s)) (activeScope s)) a)\<rparr>"
  by (simp add: endScope_def fold_dispose)

lemma math_scope_eq:
  "math_scope scopeFn s =
     (let (r, s1) = scopeFn (s\<lparr>activeScope := [], activeScopeNDArraysToKeep := []\<rparr>)
      in (r, s1\<lparr>disposals := (\<lambda>a. disposals s1 a +
                  count_list (filter (\<lambda>x. x \<notin> set (activeScopeNDArraysToKeep s1))
                    (activeScope s1)) a),
                activeScope := activeScope s,
                activeScopeNDArraysToKeep := activeScopeNDArraysToKeep s\<rparr>))"
  by (simp add: math_scope_def endScope_eq Let_def split: prod.split)

subsection \<open>Construction\<close>

text \<open>
  C4: constructing a Subtract node fails with the shape error if and only if
  neither operand's shape has exactly one element and the two shapes are not
  equal. So a node with an operand of size 1, of any rank, is always built,
  and a node with two operands of more (or fewer) than one element and
  different shapes never is.
\<close>

theorem Subtract_new_fails_iff:
  "(Subtract_new a b out = Inl ShapeMismatchError \<longleftrightarrow>
      prod_list (tensor_shape a) \<noteq> 1 \<and> prod_list (tensor_shape b) \<noteq> 1 \<and>
      tensor_shape a \<noteq> tensor_shape b) \<and>
   (Subtract_new a b out = Inr \<lparr>t1 = a, t2 = b, outTensor = out, dySizeScalar = None\<rparr> \<longleftrightarrow>
      prod_list (tensor_shape a) = 1 \<or> prod_list (tensor_shape b) = 1 \<or>
      tensor_shape a = tensor_shape b)"
  by (simp add: Subtract_new_def sizeFromShape_def arraysEqual_def)

theorem Subtract_new_fails_iff_witness:
  "Subtract_new (ex_tensor 0 [2]) (ex_tensor 1 [3]) (ex_tensor 2 [2]) = Inl ShapeMismatchError \<and>
   Subtract_new (ex_tensor 0 [1, 1]) (ex_tensor 1 [3]) (ex_tensor 2 [3]) =
     Inr \<lparr>t1 = ex_tensor 0 [1, 1], t2 = ex_tensor 1 [3], outTensor = ex_tensor 2 [3],
          dySizeScalar = None\<rparr>"
  using Subtract_new_fails_iff [of "ex_tensor 0 [2]" "ex_tensor 1 [3]" "ex_tensor 2 [2]"]
    Subtract_new_fails_iff [of "ex_tensor 0 [1, 1]" "ex_tensor 1 [3]" "ex_tensor 2 [3]"]
  by (simp add: ex_tensor_def)

subsection \<open>The forward pass\<close>

lemma feedForward_run:
  assumes "inferenceArrays s (t1 this) = Some pa" and "inferenceArrays s (t2 this) = Some pb"
  shows "feedForward this s =
     (None,
      s\<lparr>heap := (heap s)(nextAddr s :=
           (if isScalarShape (shape (heap s pa)) then scalarMinusArray_nd (heap s pa) (heap s pb)
            else if isScalarShape (shape (heap s pb)) then arrayMinusScalar_nd (heap s pa) (heap s pb)
            else sub_nd (heap s pa) (heap s pb))),
        disposals := (disposals s)(nextAddr s := 0),
        nextAddr := Suc (nextAddr s),
        inferenceArrays := (inferenceArrays s)(outTensor this \<mapsto> nextAddr s),
        writes := writes s @ [(outTensor this, nextAddr s)]\<rparr>)"
  using assms by (simp add: feedForward_def store_defs Let_def)

lemma wf_scalar_data:
  assumes "wf_NDArray a" and "isScalarShape (shape a)"
  shows "data a = [scalar_get a]"
proof -
  from assms have "length (data a) = 1"
    by (simp add: wf_NDArray_def isScalarShape_def)
  then obtain x where "data a = [x]"
    by (cases "data a") auto
  then show ?thesis
    by (simp add: scalar_get_def)
qed

text \<open>
  C1: when both input arrays are present in the forward Value Map (and are
  well formed), feedForward succeeds and writes a live array under the
  output handle: the elementwise difference A - B when A and B have the same
  shape; the scalar minus each element of B when only A is scalar-shaped;
  each element of A minus the scalar when only B is scalar-shaped.
\<close>

theorem feedForward_correct:
  assumes "inferenceArrays s (t1 this) = Some pa" and "inferenceArrays s (t2 this) = Some pb"
    and "heap s pa = A" and "heap s pb = B" and "wf_NDArray A" and "wf_NDArray B"
  shows "\<exists>s' r. feedForward this s = (None, s') \<and>
           inferenceArrays s' (outTensor this) = Some r \<and> live s' r \<and>
           (shape A = shape B \<longrightarrow>
              heap s' r = \<lparr>shape = shape A, data = map2 (-) (data A) (data B)\<rparr>) \<and>
           (isScalarShape (shape A) \<and> \<not> isScalarShape (shape B) \<longrightarrow>
              heap s' r = \<lparr>shape = shape B, data = map (\<lambda>y. scalar_get A - y) (data B)\<rparr>) \<and>
           (\<not> isScalarShape (shape A) \<and> isScalarShape (shape B) \<longrightarrow>
              heap s' r = \<lparr>shape = shape A, data = map (\<lambda>x. x - scalar_get B) (data A)\<rparr>)"
proof -
  have same: "scalarMinusArray_nd A B = \<lparr>shape = shape A, data = map2 (-) (data A) (data B)\<rparr>"
    if "shape A = shape B" and "isScalarShape (shape A)"
  proof -
    have "data A = [scalar_get A]" and "data B = [scalar_get B]"
      using that assms(5,6) by (simp_all add: wf_scalar_data)
    then show ?thesis
      using that by (simp add: scalarMinusArray_nd_def)
  qed
  show ?thesis
    using assms(3,4) same
    by (simp add: feedForward_run [OF assms(1,2)] live_def sub_nd_def scalarMinusArray_nd_def
        arrayMinusScalar_nd_def)
qed

theorem feedForward_correct_witness:
  "(\<exists>s' r. feedForward (ex_node [2] [2] [2])
        (ex_forward (ex_node [2] [2] [2])
           \<lparr>shape = [2], data = [3, 5]\<rparr> \<lparr>shape = [2], data = [1, 2]\<rparr>) = (None, s') \<and>
      inferenceArrays s' (ex_tensor 2 [2]) = Some r \<and> live s' r \<and>
      heap s' r = \<lparr>shape = [2], data = [2, 3]\<rparr>) \<and>
   (\<exists>s' r. feedForward (ex_node [] [3] [3])
        (ex_forward (ex_node [] [3] [3])
           \<lparr>shape = [], data = [5]\<rparr> \<lparr>shape = [3], data = [1, 2, 3]\<rparr>) = (None, s') \<and>
      inferenceArrays s' (ex_tensor 2 [3]) = Some r \<and> live s' r \<and>
      heap s' r = \<lparr>shape = [3], data = [4, 3, 2]\<rparr>) \<and>
   (\<exists>s' r. feedForward (ex_node [3] [] [3])
        (ex_forward (ex_node [3] [] [3])
           \<lparr>shape = [3], data = [1, 2, 3]\<rparr> \<lparr>shape = [], data = [2]\<rparr>) = (None, s') \<and>
      inferenceArrays s' (ex_tensor 2 [3]) = Some r \<and> live s' r \<and>
      heap s' r = \<lparr>shape = [3], data = [- 1, 0, 1]\<rparr>)"
  using
    feedForward_correct [of
      "ex_forward (ex_node [2] [2] [2])
         \<lparr>shape = [2], data = [3, 5]\<rparr> \<lparr>shape = [2], data = [1, 2]\<rparr>"
      "ex_node [2] [2] [2]" 0 1
      "\<lparr>shape = [2], data = [3, 5]\<rparr>" "\<lparr>shape = [2], data = [1, 2]\<rparr>"]
    feedForward_correct [of
      "ex_forward (ex_node [] [3] [3])
         \<lparr>shape = [], data = [5]\<rparr> \<lparr>shape = [3], data = [1, 2, 3]\<rparr>"
      "ex_node [] [3] [3]" 0 1
      "\<lparr>shape = [], data = [5]\<rparr>" "\<lparr>shape = [3], data = [1, 2, 3]\<rparr>"]
    feedForward_correct [of
      "ex_forward (ex_node [3] [] [3])
         \<lparr>shape = [3], data = [1, 2, 3]\<rparr> \<lparr>shape = [], data = [2]\<rparr>"
      "ex_node [3] [] [3]" 0 1
      "\<lparr>shape = [3], data = [1, 2, 3]\<rparr>" "\<lparr>shape = [], data = [2]\<rparr>"]
  by (simp add: ex_defs wf_NDArray_def isScalarShape_def sizeFromShape_def scalar_get_def)

subsection \<open>Absent entries\<close>

text \<open>
  C8: if an input's forward value is absent, feedForward fails and returns
  the state it was given; if the gradient of the output handle is absent,
  backProp fails and returns the node and the state it was given. In both
  cases neither Value Map (nor anything else) has changed.
\<close>

theorem missing_entry_atomic:
  "(inferenceArrays s (t1 this) = None \<or> inferenceArrays s (t2 this) = None \<longrightarrow>
      feedForward this s = (Some MissingValueError, s)) \<and>
   (gradientArrays s (outTensor this) = None \<longrightarrow>
      backProp shouldBackProp this s = (Some MissingGradientError, this, s))"
  by (simp add: feedForward_def backProp_def split: option.split)

theorem missing_entry_atomic_witness:
  "feedForward (ex_node [3] [3] [3])
     ((ex_store [\<lparr>shape = [3], data = [1, 2, 3]\<rparr>])
        \<lparr>inferenceArrays := [ex_tensor 0 [3] \<mapsto> 0]\<rparr>) =
     (Some MissingValueError,
      (ex_store [\<lparr>shape = [3], data = [1, 2, 3]\<rparr>])
        \<lparr>inferenceArrays := [ex_tensor 0 [3] \<mapsto> 0]\<rparr>) \<and>
   backProp (\<lambda>_. True) (ex_node [3] [3] [3]) (ex_store []) =
     (Some MissingGradientError, ex_node [3] [3] [3], ex_store [])"
  using
    missing_entry_atomic [of
      "(ex_store [\<lparr>shape = [3], data = [1, 2, 3]\<rparr>])
         \<lparr>inferenceArrays := [ex_tensor 0 [3] \<mapsto> 0]\<rparr>"
      "ex_node [3] [3] [3]" "\<lambda>_. True"]
    missing_entry_atomic [of "ex_store []" "ex_node [3] [3] [3]" "\<lambda>_. True"]
  by (simp add: ex_defs)

subsection \<open>The two blocks of the backward pass\<close>

text \<open>What a block leaves alone: the handles of the node, a cached scalar
  that exists, the forward map, every array allocated before, the gradient
  entries of other handles; it only appends to the kept arrays and to the
  write history, and does nothing at all for an input that needs no
  gradient.\<close>

lemma backProp_t1_frame:
  assumes "backProp_t1 sbp dy (this, s) = (this', s')"
  shows "t1 this' = t1 this \<and> t2 this' = t2 this \<and> outTensor this' = outTensor this \<and>
         (dySizeScalar this \<noteq> None \<longrightarrow> this' = this) \<and>
         nextAddr s \<le> nextAddr s' \<and>
         inferenceArrays s' = inferenceArrays s \<and>
         (\<forall>a < nextAddr s. heap s' a = heap s a \<and> disposals s' a = disposals s a) \<and>
         (\<forall>t. t \<noteq> t1 this \<longrightarrow> gradientArrays s' t = gradientArrays s t) \<and>
         (\<exists>K. activeScopeNDArraysToKeep s' = activeScopeNDArraysToKeep s @ K) \<and>
         (\<exists>W. writes s' = writes s @ W \<and> fst ` set W \<subseteq> {t1 this}) \<and>
         (\<not> sbp (t1 this) \<longrightarrow> this' = this \<and> s' = s)"
  using assms
  by (auto simp add: bp_defs store_defs Let_def split: option.splits if_splits)

lemma backProp_t2_frame:
  assumes "backProp_t2 sbp dy (this, s) = (this', s')"
  shows "t1 this' = t1 this \<and> t2 this' = t2 this \<and> outTensor this' = outTensor this \<and>
         (dySizeScalar this \<noteq> None \<longrightarrow> this' = this) \<and>
         nextAddr s \<le> nextAddr s' \<and>
         inferenceArrays s' = inferenceArrays s \<and>
         (\<forall>a < nextAddr s. heap s' a = heap s a \<and> disposals s' a = disposals s a) \<and>
         (\<forall>t. t \<noteq> t2 this \<longrightarrow> gradientArrays s' t = gradientArrays s t) \<and>
         (\<exists>K. activeScopeNDArraysToKeep s' = activeScopeNDArraysToKeep s @ K) \<and>
         (\<exists>W. writes s' = writes s @ W \<and> fst ` set W \<subseteq> {t2 this}) \<and>
         (\<not> sbp (t2 this) \<longrightarrow> this' = this \<and> s' = s)"
  using assms
  by (auto simp add: bp_defs store_defs Let_def split: option.splits if_splits)

text \<open>The scalar path of a block, when \<open>dy\<close> and the cached scalar (if any)
  are allocated arrays: one write, of a kept, live array holding the sum (or
  the negated sum) divided by the scalar the node holds afterwards.\<close>

lemma backProp_t1_scalar:
  assumes "backProp_t1 sbp dy (this, s) = (this', s')"
    and "sbp (t1 this)" and "isScalarShape (tensor_shape (t1 this))"
    and "dy < nextAddr s" and "\<forall>c. dySizeScalar this = Some c \<longrightarrow> c < nextAddr s"
  shows "\<exists>r c. writes s' = writes s @ [(t1 this, r)] \<and> gradientArrays s' (t1 this) = Some r \<and>
           r \<in> set (activeScopeNDArraysToKeep s') \<and> r < nextAddr s' \<and> disposals s' r = 0 \<and>
           dySizeScalar this' = Some c \<and> c < nextAddr s' \<and>
           heap s' r = divide_nd (sum_nd (heap s dy)) (heap s' c) \<and>
           (case dySizeScalar this of
              None \<Rightarrow> heap s' c = scalar_nd (real (size_nd (heap s dy))) \<and> nextAddr s \<le> c
            | Some c0 \<Rightarrow> c = c0 \<and> heap s' c = heap s c)"
  using assms
  by (auto simp add: bp_defs store_defs Let_def split: option.splits if_splits)

lemma backProp_t2_scalar:
  assumes "backProp_t2 sbp dy (this, s) = (this', s')"
    and "sbp (t2 this)" and "isScalarShape (tensor_shape (t2 this))"
    and "dy < nextAddr s" and "\<forall>c. dySizeScalar this = Some c \<longrightarrow> c < nextAddr s"
  shows "\<exists>r c. writes s' = writes s @ [(t2 this, r)] \<and> gradientArrays s' (t2 this) = Some r \<and>
           r \<in> set (activeScopeNDArraysToKeep s') \<and> r < nextAddr s' \<and> disposals s' r = 0 \<and>
           dySizeScalar this' = Some c \<and> c < nextAddr s' \<and>
           heap s' r = divide_nd (neg_nd (sum_nd (heap s dy))) (heap s' c) \<and>
           (case dySizeScalar this of
              None \<Rightarrow> heap s' c = scalar_nd (real (size_nd (heap s dy))) \<and> nextAddr s \<le> c
            | Some c0 \<Rightarrow> c = c0 \<and> heap s' c = heap s c)"
  using assms
  by (auto simp add: bp_defs store_defs Let_def split: option.splits if_splits)

text \<open>A block leaves the node without a cached scalar exactly when it had
  none and the scalar path did not run.\<close>

lemma backProp_t1_cache:
  assumes "backProp_t1 sbp dy (this, s) = (this', s')"
  shows "dySizeScalar this' = None \<longleftrightarrow>
           dySizeScalar this = None \<and> \<not> (sbp (t1 this) \<and> isScalarShape (tensor_shape (t1 this)))"
  using assms
  by (auto simp add: bp_defs store_defs Let_def split: option.splits if_splits)

lemma backProp_t2_cache:
  assumes "backProp_t2 sbp dy (this, s) = (this', s')"
  shows "dySizeScalar this' = None \<longleftrightarrow>
           dySizeScalar this = None \<and> \<not> (sbp (t2 this) \<and> isScalarShape (tensor_shape (t2 this)))"
  using assms
  by (auto simp add: bp_defs store_defs Let_def split: option.splits if_splits)

text \<open>Both blocks keep the bookkeeping invariant of the scope.\<close>

lemma scope_inv_t1:
  assumes "scope_inv n0 w0 c0 (this, s)"
  shows "scope_inv n0 w0 c0 (backProp_t1 sbp dy (this, s))"
  using assms
  by (auto simp add: scope_inv_def created_def bp_defs store_defs Let_def split: option.splits)

lemma scope_inv_t2:
  assumes "scope_inv n0 w0 c0 (this, s)"
  shows "scope_inv n0 w0 c0 (backProp_t2 sbp dy (this, s))"
  using assms
  by (auto simp add: scope_inv_def created_def bp_defs store_defs Let_def split: option.splits)

lemma scope_inv_start:
  "scope_inv (nextAddr s) (length (writes s)) (dySizeScalar this)
     (this, s\<lparr>activeScope := [], activeScopeNDArraysToKeep := []\<rparr>)"
  by (simp add: scope_inv_def created_def split: option.split)

text \<open>A successful backward pass, cut into its steps.\<close>

lemma backProp_run:
  assumes "gradientArrays s (outTensor this) = Some dy"
  shows "\<exists>th1 s1 th2 s2.
           backProp_t1 sbp dy (this, s\<lparr>activeScope := [], activeScopeNDArraysToKeep := []\<rparr>) =
             (th1, s1) \<and>
           backProp_t2 sbp dy (th1, s1) = (th2, s2) \<and>
           scope_inv (nextAddr s) (length (writes s)) (dySizeScalar this) (th2, s2) \<and>
           backProp sbp this s =
             (None, th2,
              s2\<lparr>disposals := (\<lambda>a. disposals s2 a +
                    count_list (filter (\<lambda>x. x \<notin> set (activeScopeNDArraysToKeep s2))
                      (activeScope s2)) a),
                 activeScope := activeScope s,
                 activeScopeNDArraysToKeep := activeScopeNDArraysToKeep s\<rparr>)"
proof -
  let ?s0 = "s\<lparr>activeScope := [], activeScopeNDArraysToKeep := []\<rparr>"
  obtain th1 s1 where b1: "backProp_t1 sbp dy (this, ?s0) = (th1, s1)"
    by (cases "backProp_t1 sbp dy (this, ?s0)")
  obtain th2 s2 where b2: "backProp_t2 sbp dy (th1, s1) = (th2, s2)"
    by (cases "backProp_t2 sbp dy (th1, s1)")
  have "scope_inv (nextAddr s) (length (writes s)) (dySizeScalar this) (th1, s1)"
    using scope_inv_t1 [OF scope_inv_start, of s this sbp dy] b1 by simp
  then have "scope_inv (nextAddr s) (length (writes s)) (dySizeScalar this) (th2, s2)"
    using scope_inv_t2 [of _ _ _ th1 s1 sbp dy] b2 by simp
  moreover have "backProp sbp this s =
      (None, th2,
       s2\<lparr>disposals := (\<lambda>a. disposals s2 a +
             count_list (filter (\<lambda>x. x \<notin> set (activeScopeNDArraysToKeep s2))
               (activeScope s2)) a),
          activeScope := activeScope s,
          activeScopeNDArraysToKeep := activeScopeNDArraysToKeep s\<rparr>)"
    using assms b1 b2 by (simp add: backProp_def math_scope_eq)
  ultimately show ?thesis
    using b1 b2 by blast
qed

text \<open>The scalar path of either input in a whole backward pass, when \<open>dy\<close> and
  the cached scalar (if any) are allocated arrays.\<close>

lemma backProp_t1_refs:
  assumes "backProp_t1 sbp dy (this, s) = (this', s')"
    and "dy < nextAddr s" and "\<forall>c. dySizeScalar this = Some c \<longrightarrow> c < nextAddr s"
  shows "(\<forall>c. dySizeScalar this' = Some c \<longrightarrow> c < nextAddr s') \<and>
         (case dySizeScalar this of
            None \<Rightarrow> (\<forall>c. dySizeScalar this' = Some c \<longrightarrow>
                       nextAddr s \<le> c \<and> heap s' c = scalar_nd (real (size_nd (heap s dy))))
          | Some c0 \<Rightarrow> True)"
  using assms
  by (auto simp add: bp_defs store_defs Let_def split: option.splits if_splits)

lemma backProp_scalar_t1:
  assumes run: "backProp sbp this s = (e, this', s')"
    and dy: "gradientArrays s (outTensor this) = Some dy" "dy < nextAddr s"
    and c: "\<forall>c. dySizeScalar this = Some c \<longrightarrow> c < nextAddr s"
    and sc: "sbp (t1 this)" "isScalarShape (tensor_shape (t1 this))"
  shows "\<exists>r c. (t1 this, r) \<in> set (drop (length (writes s)) (writes s')) \<and> live s' r \<and>
           (t1 this \<noteq> t2 this \<longrightarrow> gradientArrays s' (t1 this) = Some r) \<and>
           dySizeScalar this' = Some c \<and> c < nextAddr s' \<and>
           heap s' r = divide_nd (sum_nd (heap s dy)) (heap s' c) \<and>
           (case dySizeScalar this of
              None \<Rightarrow> heap s' c = scalar_nd (real (size_nd (heap s dy))) \<and> nextAddr s \<le> c
            | Some c0 \<Rightarrow> c = c0 \<and> heap s' c = heap s c)"
proof -
  let ?s0 = "s\<lparr>activeScope := [], activeScopeNDArraysToKeep := []\<rparr>"
  from backProp_run [OF dy(1), of sbp] obtain th1 s1 th2 s2 where
    b1: "backProp_t1 sbp dy (this, ?s0) = (th1, s1)" and
    b2: "backProp_t2 sbp dy (th1, s1) = (th2, s2)" and
    res: "backProp sbp this s =
           (None, th2,
            s2\<lparr>disposals := (\<lambda>a. disposals s2 a +
                  count_list (filter (\<lambda>x. x \<notin> set (activeScopeNDArraysToKeep s2))
                    (activeScope s2)) a),
               activeScope := activeScope s,
               activeScopeNDArraysToKeep := activeScopeNDArraysToKeep s\<rparr>)"
    by blast
  have eq: "this' = th2" "s' = s2\<lparr>disposals := (\<lambda>a. disposals s2 a +
                  count_list (filter (\<lambda>x. x \<notin> set (activeScopeNDArraysToKeep s2))
                    (activeScope s2)) a),
               activeScope := activeScope s,
               activeScopeNDArraysToKeep := activeScopeNDArraysToKeep s\<rparr>"
    using run res by simp_all
  have h0: "heap ?s0 = heap s" "nextAddr ?s0 = nextAddr s" "writes ?s0 = writes s"
    by simp_all
  have "dy < nextAddr ?s0" and "\<forall>c. dySizeScalar this = Some c \<longrightarrow> c < nextAddr ?s0"
    using dy(2) c by simp_all
  from backProp_t1_scalar [OF b1 sc this] obtain r c' where
    r: "writes s1 = writes s @ [(t1 this, r)]" "gradientArrays s1 (t1 this) = Some r"
       "r \<in> set (activeScopeNDArraysToKeep s1)" "r < nextAddr s1" "disposals s1 r = 0"
       "dySizeScalar th1 = Some c'" "c' < nextAddr s1"
       "heap s1 r = divide_nd (sum_nd (heap s dy)) (heap s1 c')"
       "case dySizeScalar this of
              None \<Rightarrow> heap s1 c' = scalar_nd (real (size_nd (heap s dy))) \<and> nextAddr s \<le> c'
            | Some c0 \<Rightarrow> c' = c0 \<and> heap s1 c' = heap s c'"
    unfolding h0 by auto
  note f1 = backProp_t1_frame [OF b1]
  note f2 = backProp_t2_frame [OF b2]
  have th: "th2 = th1" using f2 r(6) by simp
  from f2 obtain K W where KW: "activeScopeNDArraysToKeep s2 = activeScopeNDArraysToKeep s1 @ K"
    "writes s2 = writes s1 @ W" by auto
  have "(t1 this, r) \<in> set (drop (length (writes s)) (writes s'))"
    using r(1) KW(2) by (simp add: eq)
  moreover have "live s' r"
    using r(3,4,5) KW(1) f2 by (simp add: eq live_def count_list_0_iff)
  moreover have "t1 this \<noteq> t2 this \<longrightarrow> gradientArrays s' (t1 this) = Some r"
    using f1 f2 r(2) by (auto simp add: eq)
  moreover have "dySizeScalar this' = Some c'" and "c' < nextAddr s'"
    using th r(6,7) f2 by (simp_all add: eq)
  moreover have "heap s' r = divide_nd (sum_nd (heap s dy)) (heap s' c')"
    using f2 r(4,7,8) by (simp add: eq)
  moreover have "case dySizeScalar this of
              None \<Rightarrow> heap s' c' = scalar_nd (real (size_nd (heap s dy))) \<and> nextAddr s \<le> c'
            | Some c0 \<Rightarrow> c' = c0 \<and> heap s' c' = heap s c'"
    using f2 r(7,9) by (simp add: eq split: option.splits)
  ultimately show ?thesis by blast
qed

lemma backProp_scalar_t2:
  assumes run: "backProp sbp this s = (e, this', s')"
    and dy: "gradientArrays s (outTensor this) = Some dy" "dy < nextAddr s"
    and c: "\<forall>c. dySizeScalar this = Some c \<longrightarrow> c < nextAddr s"
    and sc: "sbp (t2 this)" "isScalarShape (tensor_shape (t2 this))"
  shows "\<exists>r c. (t2 this, r) \<in> set (drop (length (writes s)) (writes s')) \<and> live s' r \<and>
           gradientArrays s' (t2 this) = Some r \<and>
           dySizeScalar this' = Some c \<and> c < nextAddr s' \<and>
           heap s' r = divide_nd (neg_nd (sum_nd (heap s dy))) (heap s' c) \<and>
           (case dySizeScalar this of
              None \<Rightarrow> heap s' c = scalar_nd (real (size_nd (heap s dy))) \<and> nextAddr s \<le> c
            | Some c0 \<Rightarrow> c = c0 \<and> heap s' c = heap s c)"
proof -
  let ?s0 = "s\<lparr>activeScope := [], activeScopeNDArraysToKeep := []\<rparr>"
  from backProp_run [OF dy(1), of sbp] obtain th1 s1 th2 s2 where
    b1: "backProp_t1 sbp dy (this, ?s0) = (th1, s1)" and
    b2: "backProp_t2 sbp dy (th1, s1) = (th2, s2)" and
    res: "backProp sbp this s =
           (None, th2,
            s2\<lparr>disposals := (\<lambda>a. disposals s2 a +
                  count_list (filter (\<lambda>x. x \<notin> set (activeScopeNDArraysToKeep s2))
                    (activeScope s2)) a),
               activeScope := activeScope s,
               activeScopeNDArraysToKeep := activeScopeNDArraysToKeep s\<rparr>)"
    by blast
  have eq: "this' = th2" "s' = s2\<lparr>disposals := (\<lambda>a. disposals s2 a +
                  count_list (filter (\<lambda>x. x \<notin> set (activeScopeNDArraysToKeep s2))
                    (activeScope s2)) a),
               activeScope := activeScope s,
               activeScopeNDArraysToKeep := activeScopeNDArraysToKeep s\<rparr>"
    using run res by simp_all
  note f1 = backProp_t1_frame [OF b1]
  have c0: "\<forall>c. dySizeScalar this = Some c \<longrightarrow> c < nextAddr ?s0" and dy0: "dy < nextAddr ?s0"
    using c dy(2) by simp_all
  note r1 = backProp_t1_refs [OF b1 dy0 c0]
  have dy1: "dy < nextAddr s1" "heap s1 dy = heap s dy"
    using f1 dy(2) by auto
  have c1: "\<forall>c. dySizeScalar th1 = Some c \<longrightarrow> c < nextAddr s1"
    using r1 by simp
  have sc1: "sbp (t2 th1)" "isScalarShape (tensor_shape (t2 th1))"
    using sc f1 by simp_all
  from backProp_t2_scalar [OF b2 sc1 dy1(1) c1] obtain r c' where
    r: "writes s2 = writes s1 @ [(t2 th1, r)]" "gradientArrays s2 (t2 th1) = Some r"
       "r \<in> set (activeScopeNDArraysToKeep s2)" "r < nextAddr s2" "disposals s2 r = 0"
       "dySizeScalar th2 = Some c'" "c' < nextAddr s2"
       "heap s2 r = divide_nd (neg_nd (sum_nd (heap s1 dy))) (heap s2 c')"
       "case dySizeScalar th1 of
              None \<Rightarrow> heap s2 c' = scalar_nd (real (size_nd (heap s1 dy))) \<and> nextAddr s1 \<le> c'
            | Some c0 \<Rightarrow> c' = c0 \<and> heap s2 c' = heap s1 c'"
    by auto
  from f1 obtain W1 where W1: "writes s1 = writes s @ W1" by auto
  have "(t2 this, r) \<in> set (drop (length (writes s)) (writes s'))"
    using r(1) W1 f1 by (simp add: eq)
  moreover have "live s' r"
    using r(3,5) by (simp add: eq live_def count_list_0_iff)
  moreover have "gradientArrays s' (t2 this) = Some r"
    using f1 r(2) by (simp add: eq)
  moreover have "dySizeScalar this' = Some c'" and "c' < nextAddr s'"
    using r(6,7) by (simp_all add: eq)
  moreover have "heap s' r = divide_nd (neg_nd (sum_nd (heap s dy))) (heap s' c')"
    using r(8) dy1(2) by (simp add: eq)
  moreover have "case dySizeScalar this of
              None \<Rightarrow> heap s' c' = scalar_nd (real (size_nd (heap s dy))) \<and> nextAddr s \<le> c'
            | Some c0 \<Rightarrow> c' = c0 \<and> heap s' c' = heap s c'"
  proof (cases "dySizeScalar this")
    case None
    show ?thesis
    proof (cases "dySizeScalar th1")
      case n1: None
      then show ?thesis using None r(9) dy1(2) f1 by (simp add: eq)
    next
      case (Some c1)
      then have "c' = c1" "heap s2 c' = heap s1 c1" using r(9) by auto
      then show ?thesis using None Some r1 by (simp add: eq)
    qed
  next
    case (Some c0)
    then have "th1 = this" using f1 by simp
    then show ?thesis using Some r(9) f1 c by (auto simp add: eq)
  qed
  ultimately show ?thesis by blast
qed

subsection \<open>The backward pass, both inputs of full shape\<close>

text \<open>
  C2: when both inputs are non-scalar and both require a gradient, backProp
  succeeds and makes exactly two writes: the array dy itself, with its
  contents untouched, as the gradient of t1, and then a new live array
  holding the elementwise negation of dy as the gradient of t2. (When t1 and
  t2 are one and the same handle, the second write replaces the first in the
  map.)
\<close>

theorem backProp_same_shape:
  assumes "gradientArrays s (outTensor this) = Some dy" and "dy < nextAddr s"
    and "\<not> isScalarShape (tensor_shape (t1 this))"
    and "\<not> isScalarShape (tensor_shape (t2 this))"
    and "sbp (t1 this)" and "sbp (t2 this)"
  shows "\<exists>s' r. backProp sbp this s = (None, this, s') \<and>
           drop (length (writes s)) (writes s') = [(t1 this, dy), (t2 this, r)] \<and>
           heap s' dy = heap s dy \<and> disposals s' dy = disposals s dy \<and>
           heap s' r = \<lparr>shape = shape (heap s dy), data = map uminus (data (heap s dy))\<rparr> \<and>
           live s' r \<and>
           gradientArrays s' (t2 this) = Some r \<and>
           (t1 this \<noteq> t2 this \<longrightarrow> gradientArrays s' (t1 this) = Some dy)"
  using assms
  by (simp add: backProp_def bp_defs store_defs Let_def live_def neg_nd_def)

theorem backProp_same_shape_witness:
  "\<exists>s' r. backProp (\<lambda>_. True) (ex_node [3] [3] [3])
             (ex_backward (ex_node [3] [3] [3]) \<lparr>shape = [3], data = [1, 1, 1]\<rparr>) =
             (None, ex_node [3] [3] [3], s') \<and>
          writes s' = [(ex_tensor 0 [3], 0), (ex_tensor 1 [3], r)] \<and>
          heap s' 0 = \<lparr>shape = [3], data = [1, 1, 1]\<rparr> \<and> live s' 0 \<and>
          heap s' r = \<lparr>shape = [3], data = [- 1, - 1, - 1]\<rparr> \<and> live s' r \<and>
          gradientArrays s' (ex_tensor 1 [3]) = Some r \<and>
          gradientArrays s' (ex_tensor 0 [3]) = Some 0"
  using backProp_same_shape [of
      "ex_backward (ex_node [3] [3] [3]) \<lparr>shape = [3], data = [1, 1, 1]\<rparr>"
      "ex_node [3] [3] [3]" 0 "\<lambda>_. True"]
  by (simp add: ex_defs isScalarShape_def sizeFromShape_def live_def)

subsection \<open>Inputs that need no gradient\<close>

text \<open>
  C7: for an input of the node that the Graph Driver reports as not requiring
  a gradient, backProp makes no write under that input's handle, and the
  entry of that handle in the gradient Value Map (present or absent) is after
  the call what it was before.
\<close>

theorem backProp_skips_input:
  assumes "backProp sbp this s = (e, this', s')"
    and "t = t1 this \<or> t = t2 this" and "\<not> sbp t"
  shows "gradientArrays s' t = gradientArrays s t \<and>
         t \<notin> fst ` set (drop (length (writes s)) (writes s'))"
proof (cases "gradientArrays s (outTensor this)")
  case None
  with assms(1) show ?thesis
    by (simp add: backProp_def)
next
  case (Some dy)
  from backProp_run [OF Some, of sbp] obtain th1 s1 th2 s2 where
    b1: "backProp_t1 sbp dy (this, s\<lparr>activeScope := [], activeScopeNDArraysToKeep := []\<rparr>) =
           (th1, s1)" and
    b2: "backProp_t2 sbp dy (th1, s1) = (th2, s2)" and
    res: "backProp sbp this s =
           (None, th2,
            s2\<lparr>disposals := (\<lambda>a. disposals s2 a +
                  count_list (filter (\<lambda>x. x \<notin> set (activeScopeNDArraysToKeep s2))
                    (activeScope s2)) a),
               activeScope := activeScope s,
               activeScopeNDArraysToKeep := activeScopeNDArraysToKeep s\<rparr>)"
    by blast
  note f1 = backProp_t1_frame [OF b1]
  note f2 = backProp_t2_frame [OF b2]
  from f1 obtain W1 where W1: "writes s1 = writes s @ W1" "fst ` set W1 \<subseteq> {t1 this}"
    by auto
  from f2 f1 obtain W2 where W2: "writes s2 = writes s1 @ W2" "fst ` set W2 \<subseteq> {t2 this}"
    by auto
  have g: "gradientArrays s' = gradientArrays s2" and w: "writes s' = writes s @ W1 @ W2"
    using assms(1) res W1 W2 by auto
  show ?thesis
  proof (cases "sbp (t1 this)")
    case True
    then have "t \<noteq> t1 this" and "t = t2 this"
      using assms(2,3) by auto
    then have "s2 = s1" and "t \<notin> fst ` set W1"
      using f1 f2 assms(3) W1 by auto
    then show ?thesis
      using f1 \<open>t \<noteq> t1 this\<close> g w W2 by auto
  next
    case False
    then have eq1: "th1 = this"
      "s1 = s\<lparr>activeScope := [], activeScopeNDArraysToKeep := []\<rparr>" "W1 = []"
      using f1 W1 by auto
    show ?thesis
    proof (cases "sbp (t2 this)")
      case True
      then have "t \<noteq> t2 this"
        using assms(3) by auto
      then show ?thesis
        using f2 eq1 g w W2 by auto
    next
      case False
      then have "s2 = s1" and "W2 = []"
        using f2 W2 eq1 by auto
      then show ?thesis
        using eq1 g w by auto
    qed
  qed
qed

theorem backProp_skips_input_witness:
  "fst ex_run3 = None \<and>
   gradientArrays (snd (snd ex_run3)) (ex_tensor 0 [4]) = Some 0 \<and>
   ex_tensor 0 [4] \<notin> fst ` set (writes (snd (snd ex_run3))) \<and>
   gradientArrays (snd (snd ex_run3)) (ex_tensor 1 [4]) = Some 1"
  using backProp_skips_input [of "\<lambda>t. t \<noteq> ex_tensor 0 [4]" "ex_node [4] [4] [4]"
      "(ex_backward (ex_node [4] [4] [4]) \<lparr>shape = [4], data = [2, 2, 2, 2]\<rparr>)
         \<lparr>gradientArrays := [ex_tensor 2 [4] \<mapsto> 0, ex_tensor 0 [4] \<mapsto> 0]\<rparr>"
      "fst ex_run3" "fst (snd ex_run3)" "snd (snd ex_run3)" "ex_tensor 0 [4]"]
  by (simp add: ex_defs run_defs)

subsection \<open>What survives a call\<close>

lemma feedForward_survivors:
  assumes "feedForward this s = (e, s')" and "nextAddr s \<le> a" and "a < nextAddr s'"
  shows "live s' a \<longleftrightarrow> a \<in> snd ` set (drop (length (writes s)) (writes s'))"
proof (cases "inferenceArrays s (t1 this)")
  case None
  with assms show ?thesis
    by (simp add: feedForward_def)
next
  case a: (Some pa)
  show ?thesis
  proof (cases "inferenceArrays s (t2 this)")
    case None
    with assms a show ?thesis
      by (simp add: feedForward_def)
  next
    case (Some pb)
    show ?thesis
      using assms feedForward_run [OF a Some] by (auto simp add: live_def)
  qed
qed

lemma backProp_survivors:
  assumes "backProp sbp this s = (e, this', s')" and "nextAddr s \<le> a" and "a < nextAddr s'"
  shows "live s' a \<longleftrightarrow>
     a \<in> snd ` set (drop (length (writes s)) (writes s')) \<or>
     (dySizeScalar this = None \<and> dySizeScalar this' = Some a)"
proof (cases "gradientArrays s (outTensor this)")
  case None
  with assms show ?thesis
    by (simp add: backProp_def)
next
  case (Some dy)
  from backProp_run [OF Some, of sbp] obtain th1 s1 th2 s2 where
    inv: "scope_inv (nextAddr s) (length (writes s)) (dySizeScalar this) (th2, s2)" and
    res: "backProp sbp this s =
           (None, th2,
            s2\<lparr>disposals := (\<lambda>a. disposals s2 a +
                  count_list (filter (\<lambda>x. x \<notin> set (activeScopeNDArraysToKeep s2))
                    (activeScope s2)) a),
               activeScope := activeScope s,
               activeScopeNDArraysToKeep := activeScopeNDArraysToKeep s\<rparr>)"
    by blast
  have eq: "this' = th2" "s' = s2\<lparr>disposals := (\<lambda>a. disposals s2 a +
                  count_list (filter (\<lambda>x. x \<notin> set (activeScopeNDArraysToKeep s2))
                    (activeScope s2)) a),
               activeScope := activeScope s,
               activeScopeNDArraysToKeep := activeScopeNDArraysToKeep s\<rparr>"
    using assms(1) res by simp_all
  show ?thesis
    using inv assms(2,3) unfolding eq
    by (auto simp add: scope_inv_def live_def created_def count_list_0_iff split: option.splits)
qed

text \<open>
  C9 as stated fails: in the first backward pass of a node with a scalar
  input, the array at address 2 is allocated during the call, is live after
  it, and was written into no Value Map: it is the cached divisor of the
  node.
\<close>

theorem scope_survivors_counterexample:
  "fst ex_run1 = None \<and>
   nextAddr (ex_backward (ex_node [] [4] [4]) \<lparr>shape = [4], data = [2, 2, 2, 2]\<rparr>) \<le> 2 \<and>
   2 < nextAddr (snd (snd ex_run1)) \<and>
   live (snd (snd ex_run1)) 2 \<and>
   2 \<notin> snd ` set (writes (snd (snd ex_run1))) \<and>
   dySizeScalar (fst (snd ex_run1)) = Some 2"
  by (simp add: ex_defs run_defs)

text \<open>
  C9, amended: of the arrays allocated during a feedForward call, the live
  ones after the call are exactly those written into a Value Map; of the
  arrays allocated during a backProp call, the live ones after the call are
  exactly those written into a Value Map and the cached divisor scalar, if
  this call created it. Every other array allocated during the call has been
  disposed when the call returns.
\<close>

theorem scope_survivors:
  "(feedForward this s = (e, s') \<and> nextAddr s \<le> a \<and> a < nextAddr s' \<longrightarrow>
      (live s' a \<longleftrightarrow> a \<in> snd ` set (drop (length (writes s)) (writes s')))) \<and>
   (backProp sbp this s = (e', this', s'') \<and> nextAddr s \<le> b \<and> b < nextAddr s'' \<longrightarrow>
      (live s'' b \<longleftrightarrow>
         b \<in> snd ` set (drop (length (writes s)) (writes s'')) \<or>
         (dySizeScalar this = None \<and> dySizeScalar this' = Some b)))"
  using feedForward_survivors backProp_survivors by blast

theorem scope_survivors_witness:
  "\<not> live (snd (snd ex_run1)) 1 \<and> live (snd (snd ex_run1)) 2 \<and> live (snd (snd ex_run1)) 3 \<and>
   live (snd (feedForward (ex_node [2] [2] [2])
     (ex_forward (ex_node [2] [2] [2])
        \<lparr>shape = [2], data = [3, 5]\<rparr> \<lparr>shape = [2], data = [1, 2]\<rparr>))) 2"
  using
    scope_survivors [where this = "ex_node [] [4] [4]"
      and s = "ex_backward (ex_node [] [4] [4]) \<lparr>shape = [4], data = [2, 2, 2, 2]\<rparr>"
      and sbp = "\<lambda>_. True" and e' = "fst ex_run1" and this' = "fst (snd ex_run1)"
      and s'' = "snd (snd ex_run1)" and b = 1
      and e = "Some MissingValueError"
      and s' = "ex_backward (ex_node [] [4] [4]) \<lparr>shape = [4], data = [2, 2, 2, 2]\<rparr>" and a = 0]
    scope_survivors [where this = "ex_node [] [4] [4]"
      and s = "ex_backward (ex_node [] [4] [4]) \<lparr>shape = [4], data = [2, 2, 2, 2]\<rparr>"
      and sbp = "\<lambda>_. True" and e' = "fst ex_run1" and this' = "fst (snd ex_run1)"
      and s'' = "snd (snd ex_run1)" and b = 2
      and e = "Some MissingValueError"
      and s' = "ex_backward (ex_node [] [4] [4]) \<lparr>shape = [4], data = [2, 2, 2, 2]\<rparr>" and a = 0]
    scope_survivors [where this = "ex_node [] [4] [4]"
      and s = "ex_backward (ex_node [] [4] [4]) \<lparr>shape = [4], data = [2, 2, 2, 2]\<rparr>"
      and sbp = "\<lambda>_. True" and e' = "fst ex_run1" and this' = "fst (snd ex_run1)"
      and s'' = "snd (snd ex_run1)" and b = 3
      and e = "Some MissingValueError"
      and s' = "ex_backward (ex_node [] [4] [4]) \<lparr>shape = [4], data = [2, 2, 2, 2]\<rparr>" and a = 0]
    scope_survivors [where this = "ex_node [2] [2] [2]"
      and s = "ex_forward (ex_node [2] [2] [2])
        \<lparr>shape = [2], data = [3, 5]\<rparr> \<lparr>shape = [2], data = [1, 2]\<rparr>"
      and sbp = "\<lambda>_. True" and e' = "Some MissingGradientError" and this' = "ex_node [2] [2] [2]"
      and s'' = "ex_forward (ex_node [2] [2] [2])
        \<lparr>shape = [2], data = [3, 5]\<rparr> \<lparr>shape = [2], data = [1, 2]\<rparr>" and b = 0
      and e = None
      and s' = "snd (feedForward (ex_node [2] [2] [2])
     (ex_forward (ex_node [2] [2] [2])
        \<lparr>shape = [2], data = [3, 5]\<rparr> \<lparr>shape = [2], data = [1, 2]\<rparr>))" and a = 2]
  by (simp add: ex_defs run_defs feedForward_def)

subsection \<open>Releasing the node\<close>

text \<open>
  C6 as stated fails: after a backward pass has created the cached scalar (at
  address 2), two calls of dispose call the scalar's dispose twice; the
  second call is not a no-op.
\<close>

theorem dispose_twice_counterexample:
  "dySizeScalar (fst (snd ex_run1)) = Some 2 \<and>
   disposals (snd (snd ex_run1)) 2 = 0 \<and>
   disposals (dispose (fst (snd ex_run1)) (snd (snd ex_run1))) 2 = 1 \<and>
   disposals (dispose (fst (snd ex_run1)) (dispose (fst (snd ex_run1)) (snd (snd ex_run1)))) 2 = 2"
  by (simp add: ex_defs run_defs dispose_def)

text \<open>
  C6, amended: dispose never fails; if the cached scalar was never created it
  changes nothing; if it was created, each call of dispose calls the scalar's
  dispose once more and changes nothing else, the field not being reset, so
  that two calls dispose the scalar twice.
\<close>

theorem dispose_effect:
  "(dySizeScalar this = None \<longrightarrow> dispose this s = s) \<and>
   (\<forall>c. dySizeScalar this = Some c \<longrightarrow>
      dispose this s = s\<lparr>disposals := (disposals s)(c := Suc (disposals s c))\<rparr> \<and>
      disposals (dispose this (dispose this s)) c = Suc (Suc (disposals s c)))"
  by (simp add: dispose_def NDArray_dispose_def)

theorem dispose_effect_witness:
  "dispose (ex_node [] [4] [4]) (ex_store []) = ex_store [] \<and>
   disposals (dispose (fst (snd ex_run1)) (snd (snd ex_run1))) 2 = 1 \<and>
   disposals (dispose (fst (snd ex_run1)) (dispose (fst (snd ex_run1)) (snd (snd ex_run1)))) 2 = 2"
  using dispose_effect [of "ex_node [] [4] [4]" "ex_store []"]
    dispose_effect [of "fst (snd ex_run1)" "snd (snd ex_run1)"]
  by (simp add: ex_defs run_defs dispose_def)

subsection \<open>The cached divisor\<close>

text \<open>A whole backward pass leaves a node that has a cached scalar as it is,
  and leaves every array allocated before the call at its value.\<close>

lemma backProp_frame:
  assumes "backProp sbp this s = (e, this', s')"
  shows "(dySizeScalar this \<noteq> None \<longrightarrow> this' = this) \<and> nextAddr s \<le> nextAddr s' \<and>
         (\<forall>a < nextAddr s. heap s' a = heap s a)"
proof (cases "gradientArrays s (outTensor this)")
  case None
  with assms show ?thesis
    by (simp add: backProp_def)
next
  case (Some dy)
  from backProp_run [OF Some, of sbp] obtain th1 s1 th2 s2 where
    b1: "backProp_t1 sbp dy (this, s\<lparr>activeScope := [], activeScopeNDArraysToKeep := []\<rparr>) =
           (th1, s1)" and
    b2: "backProp_t2 sbp dy (th1, s1) = (th2, s2)" and
    res: "backProp sbp this s =
           (None, th2,
            s2\<lparr>disposals := (\<lambda>a. disposals s2 a +
                  count_list (filter (\<lambda>x. x \<notin> set (activeScopeNDArraysToKeep s2))
                    (activeScope s2)) a),
               activeScope := activeScope s,
               activeScopeNDArraysToKeep := activeScopeNDArraysToKeep s\<rparr>)"
    by blast
  note f1 = backProp_t1_frame [OF b1]
  note f2 = backProp_t2_frame [OF b2]
  have "this' = th2" and "heap s' = heap s2" and "nextAddr s' = nextAddr s2"
    using assms res by auto
  then show ?thesis
    using f1 f2 by auto
qed

lemma backProp_cache:
  assumes "backProp sbp this s = (e, this', s')" and "gradientArrays s (outTensor this) = Some dy"
  shows "dySizeScalar this' = None \<longleftrightarrow>
           dySizeScalar this = None \<and>
           \<not> (sbp (t1 this) \<and> isScalarShape (tensor_shape (t1 this))) \<and>
           \<not> (sbp (t2 this) \<and> isScalarShape (tensor_shape (t2 this)))"
proof -
  from backProp_run [OF assms(2), of sbp] obtain th1 s1 th2 s2 where
    b1: "backProp_t1 sbp dy (this, s\<lparr>activeScope := [], activeScopeNDArraysToKeep := []\<rparr>) =
           (th1, s1)" and
    b2: "backProp_t2 sbp dy (th1, s1) = (th2, s2)" and
    res: "backProp sbp this s =
           (None, th2,
            s2\<lparr>disposals := (\<lambda>a. disposals s2 a +
                  count_list (filter (\<lambda>x. x \<notin> set (activeScopeNDArraysToKeep s2))
                    (activeScope s2)) a),
               activeScope := activeScope s,
               activeScopeNDArraysToKeep := activeScopeNDArraysToKeep s\<rparr>)"
    by blast
  have "this' = th2"
    using assms(1) res by simp
  then show ?thesis
    using backProp_t1_cache [OF b1] backProp_t2_cache [OF b2] backProp_t1_frame [OF b1]
    by auto
qed

lemma divide_sum:
  assumes "scalar_get C \<noteq> 0"
  shows "divide_nd (sum_nd DY) C = scalar_nd (sum_list (data DY) / scalar_get C)"
    and "divide_nd (neg_nd (sum_nd DY)) C = scalar_nd (- sum_list (data DY) / scalar_get C)"
  using assms by (cases "data C"; simp add: kernel_defs)+

text \<open>
  C3 as stated fails: in a second backward pass of the node of the first
  example, with an upstream gradient [6, 6] of two elements, the gradient
  written for the scalar left input is 12 / 4 = 3, the sum divided by the
  element count cached in the first pass, and not the mean 6 of dy.
\<close>

theorem backProp_mean_counterexample:
  "fst ex_run2 = None \<and>
   dySizeScalar (fst (snd ex_run1)) = Some 2 \<and>
   gradientArrays ex_state2 (ex_tensor 2 [4]) = Some 5 \<and>
   heap ex_state2 5 = \<lparr>shape = [2], data = [6, 6]\<rparr> \<and>
   sum_list (data (heap ex_state2 5)) / real (size_nd (heap ex_state2 5)) = 6 \<and>
   gradientArrays (snd (snd ex_run2)) (ex_tensor 0 []) = Some 7 \<and>
   heap (snd (snd ex_run2)) 7 = \<lparr>shape = [], data = [3]\<rparr>"
  by (simp add: ex_defs run_defs)

text \<open>
  C3, amended: in a backward pass where an input is scalar-shaped and
  requires a gradient, backProp writes for that input a live scalar holding
  the sum of all elements of dy divided by the divisor of the node, negated
  for the right-hand input. The divisor is the element count of dy when the
  node has no cached scalar yet (then the gradient is the mean of dy, or its
  negation), and the cached scalar otherwise. It is assumed that dy and the
  cached scalar are allocated arrays and that the divisor is not zero.
\<close>

theorem backProp_scalar_gradient:
  assumes "backProp sbp this s = (e, this', s')"
    and "gradientArrays s (outTensor this) = Some dy" and "dy < nextAddr s"
    and "\<forall>c. dySizeScalar this = Some c \<longrightarrow> c < nextAddr s"
    and "divisor this s dy \<noteq> 0"
  shows "(sbp (t1 this) \<and> isScalarShape (tensor_shape (t1 this)) \<longrightarrow>
            (\<exists>r. (t1 this, r) \<in> set (drop (length (writes s)) (writes s')) \<and> live s' r \<and>
                 (t1 this \<noteq> t2 this \<longrightarrow> gradientArrays s' (t1 this) = Some r) \<and>
                 heap s' r = scalar_nd (sum_list (data (heap s dy)) / divisor this s dy))) \<and>
         (sbp (t2 this) \<and> isScalarShape (tensor_shape (t2 this)) \<longrightarrow>
            (\<exists>r. (t2 this, r) \<in> set (drop (length (writes s)) (writes s')) \<and> live s' r \<and>
                 gradientArrays s' (t2 this) = Some r \<and>
                 heap s' r = scalar_nd (- sum_list (data (heap s dy)) / divisor this s dy))) \<and>
         (dySizeScalar this = None \<longrightarrow> divisor this s dy = real (length (data (heap s dy))))"
proof (intro conjI impI)
  assume sc: "sbp (t1 this) \<and> isScalarShape (tensor_shape (t1 this))"
  from backProp_scalar_t1 [OF assms(1-4)] sc obtain r c where
    r: "(t1 this, r) \<in> set (drop (length (writes s)) (writes s'))" "live s' r"
       "t1 this \<noteq> t2 this \<longrightarrow> gradientArrays s' (t1 this) = Some r"
       "heap s' r = divide_nd (sum_nd (heap s dy)) (heap s' c)"
       "case dySizeScalar this of
              None \<Rightarrow> heap s' c = scalar_nd (real (size_nd (heap s dy))) \<and> nextAddr s \<le> c
            | Some c0 \<Rightarrow> c = c0 \<and> heap s' c = heap s c"
    by blast
  have "scalar_get (heap s' c) = divisor this s dy"
    using r(5) by (auto simp add: divisor_def scalar_nd_def scalar_get_def split: option.splits)
  then have "heap s' r = scalar_nd (sum_list (data (heap s dy)) / divisor this s dy)"
    using r(4) assms(5) divide_sum(1) [of "heap s' c" "heap s dy"] by simp
  with r(1-3) show "\<exists>r. (t1 this, r) \<in> set (drop (length (writes s)) (writes s')) \<and> live s' r \<and>
                 (t1 this \<noteq> t2 this \<longrightarrow> gradientArrays s' (t1 this) = Some r) \<and>
                 heap s' r = scalar_nd (sum_list (data (heap s dy)) / divisor this s dy)"
    by blast
next
  assume sc: "sbp (t2 this) \<and> isScalarShape (tensor_shape (t2 this))"
  from backProp_scalar_t2 [OF assms(1-4)] sc obtain r c where
    r: "(t2 this, r) \<in> set (drop (length (writes s)) (writes s'))" "live s' r"
       "gradientArrays s' (t2 this) = Some r"
       "heap s' r = divide_nd (neg_nd (sum_nd (heap s dy))) (heap s' c)"
       "case dySizeScalar this of
              None \<Rightarrow> heap s' c = scalar_nd (real (size_nd (heap s dy))) \<and> nextAddr s \<le> c
            | Some c0 \<Rightarrow> c = c0 \<and> heap s' c = heap s c"
    by blast
  have "scalar_get (heap s' c) = divisor this s dy"
    using r(5) by (auto simp add: divisor_def scalar_nd_def scalar_get_def split: option.splits)
  then have "heap s' r = scalar_nd (- sum_list (data (heap s dy)) / divisor this s dy)"
    using r(4) assms(5) divide_sum(2) [of "heap s' c" "heap s dy"] by simp
  with r(1-3) show "\<exists>r. (t2 this, r) \<in> set (drop (length (writes s)) (writes s')) \<and> live s' r \<and>
                 gradientArrays s' (t2 this) = Some r \<and>
                 heap s' r = scalar_nd (- sum_list (data (heap s dy)) / divisor this s dy)"
    by blast
next
  assume "dySizeScalar this = None"
  then show "divisor this s dy = real (length (data (heap s dy)))"
    by (simp add: divisor_def size_nd_def)
qed

theorem backProp_scalar_gradient_witness:
  "(\<exists>r. gradientArrays (snd (snd ex_run1)) (ex_tensor 0 []) = Some r \<and>
        live (snd (snd ex_run1)) r \<and> heap (snd (snd ex_run1)) r = \<lparr>shape = [], data = [2]\<rparr>) \<and>
   (\<exists>r. gradientArrays (snd (snd ex_run4)) (ex_tensor 1 []) = Some r \<and>
        live (snd (snd ex_run4)) r \<and> heap (snd (snd ex_run4)) r = \<lparr>shape = [], data = [- 2]\<rparr>) \<and>
   (\<exists>r. gradientArrays (snd (snd ex_run2)) (ex_tensor 0 []) = Some r \<and>
        live (snd (snd ex_run2)) r \<and> heap (snd (snd ex_run2)) r = \<lparr>shape = [], data = [12 / 4]\<rparr>)"
  using
    backProp_scalar_gradient [of "\<lambda>_. True" "ex_node [] [4] [4]"
      "ex_backward (ex_node [] [4] [4]) \<lparr>shape = [4], data = [2, 2, 2, 2]\<rparr>"
      "fst ex_run1" "fst (snd ex_run1)" "snd (snd ex_run1)" 0]
    backProp_scalar_gradient [of "\<lambda>_. True" "ex_node [4] [] [4]"
      "ex_backward (ex_node [4] [] [4]) \<lparr>shape = [4], data = [2, 2, 2, 2]\<rparr>"
      "fst ex_run4" "fst (snd ex_run4)" "snd (snd ex_run4)" 0]
    backProp_scalar_gradient [of "\<lambda>_. True" "fst (snd ex_run1)" ex_state2
      "fst ex_run2" "fst (snd ex_run2)" "snd (snd ex_run2)" 5]
  by (simp add: ex_defs run_defs divisor_def)

text \<open>
  C10: a cached divisor scalar that exists is never replaced and its value
  never changes; a node without one gets one exactly when the scalar path of
  an input runs, holding the element count of that call's dy; and when a
  cached scalar exists, the scalar path divides the sum (or negated sum) of
  dy by that cached scalar, whatever the element count of dy is.
\<close>

theorem dySizeScalar_frozen:
  assumes "backProp sbp this s = (e, this', s')"
  shows "(\<forall>c. dySizeScalar this = Some c \<and> c < nextAddr s \<longrightarrow>
            dySizeScalar this' = Some c \<and> heap s' c = heap s c) \<and>
         (\<forall>dy. dySizeScalar this = None \<and> gradientArrays s (outTensor this) = Some dy \<and>
               dy < nextAddr s \<longrightarrow>
            (if sbp (t1 this) \<and> isScalarShape (tensor_shape (t1 this)) \<or>
                sbp (t2 this) \<and> isScalarShape (tensor_shape (t2 this))
             then \<exists>c. dySizeScalar this' = Some c \<and> nextAddr s \<le> c \<and> c < nextAddr s' \<and>
                      live s' c \<and> heap s' c = scalar_nd (real (size_nd (heap s dy)))
             else dySizeScalar this' = None)) \<and>
         (\<forall>dy c. dySizeScalar this = Some c \<and> c < nextAddr s \<and>
               gradientArrays s (outTensor this) = Some dy \<and> dy < nextAddr s \<longrightarrow>
            (sbp (t1 this) \<and> isScalarShape (tensor_shape (t1 this)) \<longrightarrow>
               (\<exists>r. (t1 this, r) \<in> set (drop (length (writes s)) (writes s')) \<and>
                    heap s' r = divide_nd (sum_nd (heap s dy)) (heap s c))) \<and>
            (sbp (t2 this) \<and> isScalarShape (tensor_shape (t2 this)) \<longrightarrow>
               (\<exists>r. (t2 this, r) \<in> set (drop (length (writes s)) (writes s')) \<and>
                    heap s' r = divide_nd (neg_nd (sum_nd (heap s dy))) (heap s c))))"
proof (intro conjI allI impI)
  fix c
  assume "dySizeScalar this = Some c \<and> c < nextAddr s"
  then show "dySizeScalar this' = Some c" and "heap s' c = heap s c"
    using backProp_frame [OF assms] by auto
next
  fix dy
  assume a: "dySizeScalar this = None \<and> gradientArrays s (outTensor this) = Some dy \<and>
             dy < nextAddr s"
  then have dy: "gradientArrays s (outTensor this) = Some dy" "dy < nextAddr s"
    and c: "\<forall>c. dySizeScalar this = Some c \<longrightarrow> c < nextAddr s"
    by simp_all
  show "if sbp (t1 this) \<and> isScalarShape (tensor_shape (t1 this)) \<or>
           sbp (t2 this) \<and> isScalarShape (tensor_shape (t2 this))
        then \<exists>c. dySizeScalar this' = Some c \<and> nextAddr s \<le> c \<and> c < nextAddr s' \<and>
                 live s' c \<and> heap s' c = scalar_nd (real (size_nd (heap s dy)))
        else dySizeScalar this' = None"
  proof (cases "sbp (t1 this) \<and> isScalarShape (tensor_shape (t1 this)) \<or>
                sbp (t2 this) \<and> isScalarShape (tensor_shape (t2 this))")
    case False
    then show ?thesis
      using backProp_cache [OF assms dy(1)] a by simp
  next
    case True
    have "\<exists>c. dySizeScalar this' = Some c \<and> c < nextAddr s' \<and>
             heap s' c = scalar_nd (real (size_nd (heap s dy))) \<and> nextAddr s \<le> c"
      using True backProp_scalar_t1 [OF assms dy c] backProp_scalar_t2 [OF assms dy c] a
      by auto
    then obtain c' where c': "dySizeScalar this' = Some c'" "c' < nextAddr s'"
      "heap s' c' = scalar_nd (real (size_nd (heap s dy)))" "nextAddr s \<le> c'"
      by blast
    have "live s' c'"
      using backProp_survivors [OF assms c'(4,2)] a c'(1) by simp
    with c' True show ?thesis
      by auto
  qed
next
  fix dy c
  assume a: "dySizeScalar this = Some c \<and> c < nextAddr s \<and>
             gradientArrays s (outTensor this) = Some dy \<and> dy < nextAddr s"
    and sc: "sbp (t1 this) \<and> isScalarShape (tensor_shape (t1 this))"
  then have dy: "gradientArrays s (outTensor this) = Some dy" "dy < nextAddr s"
    and c: "\<forall>c. dySizeScalar this = Some c \<longrightarrow> c < nextAddr s"
    by simp_all
  show "\<exists>r. (t1 this, r) \<in> set (drop (length (writes s)) (writes s')) \<and>
            heap s' r = divide_nd (sum_nd (heap s dy)) (heap s c)"
    using backProp_scalar_t1 [OF assms dy c] sc a by auto
next
  fix dy c
  assume a: "dySizeScalar this = Some c \<and> c < nextAddr s \<and>
             gradientArrays s (outTensor this) = Some dy \<and> dy < nextAddr s"
    and sc: "sbp (t2 this) \<and> isScalarShape (tensor_shape (t2 this))"
  then have dy: "gradientArrays s (outTensor this) = Some dy" "dy < nextAddr s"
    and c: "\<forall>c. dySizeScalar this = Some c \<longrightarrow> c < nextAddr s"
    by simp_all
  show "\<exists>r. (t2 this, r) \<in> set (drop (length (writes s)) (writes s')) \<and>
            heap s' r = divide_nd (neg_nd (sum_nd (heap s dy))) (heap s c)"
    using backProp_scalar_t2 [OF assms dy c] sc a by auto
qed

theorem dySizeScalar_frozen_witness:
  "dySizeScalar (fst (snd ex_run1)) = Some 2 \<and>
   heap (snd (snd ex_run1)) 2 = \<lparr>shape = [], data = [4]\<rparr> \<and>
   live (snd (snd ex_run1)) 2 \<and>
   size_nd (heap ex_state2 5) = 2 \<and>
   dySizeScalar (fst (snd ex_run2)) = Some 2 \<and>
   heap (snd (snd ex_run2)) 2 = \<lparr>shape = [], data = [4]\<rparr> \<and>
   (ex_tensor 0 [], 7) \<in> set (writes (snd (snd ex_run2))) \<and>
   heap (snd (snd ex_run2)) 7 = \<lparr>shape = [], data = [12 / 4]\<rparr>"
  using
    dySizeScalar_frozen [of "\<lambda>_. True" "ex_node [] [4] [4]"
      "ex_backward (ex_node [] [4] [4]) \<lparr>shape = [4], data = [2, 2, 2, 2]\<rparr>"
      "fst ex_run1" "fst (snd ex_run1)" "snd (snd ex_run1)"]
    dySizeScalar_frozen [of "\<lambda>_. True" "fst (snd ex_run1)" ex_state2
      "fst ex_run2" "fst (snd ex_run2)" "snd (snd ex_run2)"]
  by (simp add: ex_defs run_defs)

end
